theory Spec2Isabelle
  imports Main
begin

section \<open>Values of the program\<close>

text \<open>
  The program is a single JavaScript file, \<^verbatim>\<open>src/index.js\<close>: a parser of an edge
  list (\<^verbatim>\<open>parse\<close>), the sum of the latencies along a path (\<^verbatim>\<open>getLatency\<close>) and a
  depth-first enumeration of paths steered by a caller's predicate (\<^verbatim>\<open>find\<close>,
  \<^verbatim>\<open>recurse\<close>).

  The numbers of the program are doubles. The graphs hold integers, so the numbers
  that arise are the integers a double can hold, the two infinities and \<^verbatim>\<open>NaN\<close>.
  \<open>to_double\<close> rounds an integer to the nearest double, to the even one of two that
  are equally near, and to an infinity from \<open>2\<^sup>1\<^sup>0\<^sup>2\<^sup>4 - 2\<^sup>9\<^sup>7\<^sup>0\<close> on; \<open>js_add\<close> is the
  operator \<^verbatim>\<open>+\<close> on two numbers.
\<close>

datatype number = Fin int | PosInf | NegInf | NaN

fun bit_length :: "nat \<Rightarrow> nat" where
  "bit_length n = (if n = 0 then 0 else Suc (bit_length (n div 2)))"

definition to_double :: "int \<Rightarrow> number" where
  "to_double n =
     (let m = nat \<bar>n\<bar>
      in if m < 2 ^ 53 then Fin n
         else (let e = bit_length m - 53;
                   q = m div 2 ^ e;
                   r = m mod 2 ^ e;
                   q' = (if 2 * r > 2 ^ e \<or> (2 * r = 2 ^ e \<and> odd q) then q + 1 else q);
                   v = q' * 2 ^ e
               in if v \<ge> 2 ^ 1024 then (if n < 0 then NegInf else PosInf)
                  else Fin (if n < 0 then - int v else int v)))"

fun js_add :: "number \<Rightarrow> number \<Rightarrow> number" where
  "js_add (Fin a) (Fin b) = to_double (a + b)"
| "js_add NaN b = NaN"
| "js_add a NaN = NaN"
| "js_add PosInf NegInf = NaN"
| "js_add NegInf PosInf = NaN"
| "js_add PosInf b = PosInf"
| "js_add a PosInf = PosInf"
| "js_add NegInf b = NegInf"
| "js_add a NegInf = NegInf"

text \<open>
  \<^verbatim>\<open>+\<close> with a string or an object on one side joins texts. The text of a number
  and the text that a built-in object converts to are not computed: a joined string
  is kept as the list of its pieces, \<open>Digits n\<close> for the text of the number \<open>n\<close> and
  \<open>Text_of k\<close> for the text of the object that \<^verbatim>\<open>Object.prototype\<close> holds under
  the name \<open>k\<close> (\<^verbatim>\<open>"function Object() { [native code] }"\<close> for \<^verbatim>\<open>constructor\<close> on
  Node). Such a string begins with the text of a number.

  A JavaScript value as far as the program tells values apart: what a predicate may
  return to \<^verbatim>\<open>recurse\<close> (compared with \<^verbatim>\<open>===\<close>), and what \<^verbatim>\<open>getLatency\<close>
  returns. \<open>Num\<close> is a number that is an integer, \<open>Infinity\<close>, \<open>MinusInfinity\<close> and
  \<open>NotANumber\<close> are the other numbers that the sums of the program can be, \<open>Str\<close> is
  a string that is written out and \<open>Joined\<close> one that is kept as its pieces.
  \<open>Other n\<close> stands for every other value (an object, a function, a number that is
  no integer), of which the program can only see that it is none of the values above.
\<close>

datatype piece = Digits number | Text_of string

datatype js_value =
  Num int | Str string | Bool bool | Undefined | Null | Other nat
  | Infinity | MinusInfinity | NotANumber | Joined "piece list"

fun number_value :: "number \<Rightarrow> js_value" where
  "number_value (Fin n) = Num n"
| "number_value PosInf = Infinity"
| "number_value NegInf = MinusInfinity"
| "number_value NaN = NotANumber"

text \<open>Lines 5 to 7: \<^verbatim>\<open>const STOP = -1; const CONTINUE = 0; const INCLUDE = 1;\<close>\<close>

definition STOP :: js_value where
  "STOP = Num (- 1)"

definition CONTINUE :: js_value where
  "CONTINUE = Num 0"

definition INCLUDE :: js_value where
  "INCLUDE = Num 1"

text \<open>
  The errors the specification names. No statement of \<^verbatim>\<open>src/index.js\<close> throws, so
  the functions below return \<open>Inr\<close> on every branch; the type makes the question
  ``does this call fail?'' one that can be asked of them.
\<close>

datatype error = MalformedInputError | InvalidPathError

section \<open>The graph\<close>

text \<open>
  The graph is an object whose properties are objects: \<^verbatim>\<open>graph[start][end]\<close> is the
  latency of the edge from \<^verbatim>\<open>start\<close> to \<^verbatim>\<open>end\<close>. An object is modelled as the list
  of its own enumerable properties in the order in which \<^verbatim>\<open>Object.entries\<close> reports
  them; \<open>map_of\<close> finds an own property. An object has every key once: \<open>wf_graph\<close>.
  What a read finds beyond the own properties, in \<^verbatim>\<open>Object.prototype\<close>, is the
  matter of the section on \<open>getLatency_js\<close>.
\<close>

type_synonym ('k, 'v) obj = "('k \<times> 'v) list"

type_synonym ('k, 'w) graph = "('k, ('k, 'w) obj) obj"

definition wf_graph :: "('k, 'w) graph \<Rightarrow> bool" where
  "wf_graph graph \<longleftrightarrow>
     distinct (map fst graph) \<and> list_all (\<lambda>(k, parent). distinct (map fst parent)) graph"

text \<open>
  Lines 50 and 52: \<^verbatim>\<open>Object.entries(graph[startKey] || {})\<close>, the own entries of
  the object that the graph holds under \<^verbatim>\<open>startKey\<close>. A property of the graph is an
  object, which is truthy. Where the graph holds none, \<^verbatim>\<open>graph[startKey]\<close> is
  \<^verbatim>\<open>undefined\<close>, which gives the empty object, or a built-in object inherited from
  \<^verbatim>\<open>Object.prototype\<close>, which has no own enumerable property: no entries either way.
\<close>

definition neighbors :: "('k, 'w) graph \<Rightarrow> 'k \<Rightarrow> ('k, 'w) obj" where
  "neighbors graph start = (case map_of graph start of None \<Rightarrow> [] | Some parent \<Rightarrow> parent)"

text \<open>
  The weight that the graph stores for the edge from \<^verbatim>\<open>start\<close> to \<^verbatim>\<open>end\<close>: the own
  property \<^verbatim>\<open>end\<close> of the own property \<^verbatim>\<open>start\<close>, or \<open>None\<close> when the graph has
  no such edge.
\<close>

definition edge_weight :: "('k, 'w) graph \<Rightarrow> 'k \<Rightarrow> 'k \<Rightarrow> 'w option" where
  "edge_weight graph start end = map_of (neighbors graph start) end"

text \<open>
  The graph of the tests (lines 77 to 97). The order of the entries is the order of
  the edge list \<^verbatim>\<open>A-B:5, A-D:5, A-E:7, B-C:4, C-D:8, C-E:2, D-C:8, D-E:6, E-B:3\<close>.
\<close>

definition reference_graph :: "(string, int) graph" where
  "reference_graph =
    [(''A'', [(''B'', 5), (''D'', 5), (''E'', 7)]),
     (''B'', [(''C'', 4)]),
     (''C'', [(''D'', 8), (''E'', 2)]),
     (''D'', [(''C'', 8), (''E'', 6)]),
     (''E'', [(''B'', 3)])]"

section \<open>getLatency\<close>

text \<open>
  Lines 28 to 43. The loop \<^verbatim>\<open>for (let i = 1; i < path.length; i++)\<close> with its
  accumulator \<^verbatim>\<open>result\<close>; \<^verbatim>\<open>latency == null\<close> holds when the property is missing
  (the latencies stored in a graph are numbers), and then the function returns the
  string at once. This first model reads own properties and adds integers: it is the
  function where no name of a missing pair is found in \<^verbatim>\<open>Object.prototype\<close> and no
  sum passes \<open>2\<^sup>5\<^sup>3\<close>. \<open>getLatency_js\<close>, further down, is the function on every
  path and graph.
\<close>

function getLatency_loop :: "('k, int) graph \<Rightarrow> 'k list \<Rightarrow> nat \<Rightarrow> int \<Rightarrow> js_value" where
  "getLatency_loop graph pth i result =
     (if i < length pth then
        (let start = pth ! (i - 1);
             end = pth ! i;
             parent = neighbors graph start
         in case map_of parent end of
              None \<Rightarrow> Str ''NO SUCH TRACE''
            | Some latency \<Rightarrow> getLatency_loop graph pth (i + 1) (result + latency))
      else Num result)"
  by pat_completeness auto
termination
  by (relation "measure (\<lambda>(graph, pth, i, result). length pth - i)") auto

definition getLatency :: "('k, int) graph \<Rightarrow> 'k list \<Rightarrow> error + js_value" where
  "getLatency graph pth = Inr (getLatency_loop graph pth 1 0)"

section \<open>find and recurse\<close>

text \<open>
  Line 56: \<^verbatim>\<open>const result = {path, latency};\<close>
\<close>

record 'k result =
  path :: "'k list"
  latency :: int

text \<open>
  The predicate of a caller is a closure: the tests' predicates read and write a
  variable \<^verbatim>\<open>min\<close> of their own. It is modelled as a function of the closure's state
  \<open>'s\<close> and the three arguments, returning the value it returns and the new state.
  Such a predicate returns, and writes neither to the graph nor to the result it is
  handed, as the predicates of the tests do; \<open>recurse_w_loop\<close>, further down, is the
  loop for a predicate that writes to the result.
\<close>

type_synonym ('k, 's) predicate = "'s \<Rightarrow> 'k result \<Rightarrow> 'k \<Rightarrow> 'k \<Rightarrow> js_value \<times> 's"

text \<open>
  Lines 49 to 73. \<open>recurse_loop\<close> is the \<^verbatim>\<open>for ... of Object.entries(parent)\<close> loop
  of \<^verbatim>\<open>recurse\<close> on the entries that remain; the array \<^verbatim>\<open>results\<close>, which the source
  extends in place, is passed and returned, as is the state of the predicate. The call
  \<^verbatim>\<open>recurse(graph, endKey, path, latency, results, predicate)\<close> of line 69 is the loop
  on the entries of \<^verbatim>\<open>graph[endKey] || {}\<close>. Nothing bounds the recursion: a run
  that does not return is the value \<open>None\<close>. The latencies are integers here, as the
  doubles of line 53 are up to \<open>2\<^sup>5\<^sup>3\<close>; \<open>recurse_w_loop\<close> adds doubles.
\<close>

partial_function (option) recurse_loop ::
  "('k, int) graph \<Rightarrow> ('k, int) obj \<Rightarrow> 'k \<Rightarrow> 'k list \<Rightarrow> int \<Rightarrow> 'k result list \<Rightarrow>
   ('k, 's) predicate \<Rightarrow> 's \<Rightarrow> ('k result list \<times> 's) option" where
  "recurse_loop graph entries startKey startPath startLatency results predicate s =
     (case entries of
        [] \<Rightarrow> Some (results, s)
      | (endKey, meanLatency) # entries' \<Rightarrow>
          (let lat = startLatency + meanLatency;
               pth = startPath @ [endKey];
               result = \<lparr>path = pth, latency = lat\<rparr>;
               (status, s') = predicate s result startKey endKey
           in if status = STOP then
                recurse_loop graph entries' startKey startPath startLatency results predicate s'
              else
                (let results' = (if status = INCLUDE then results @ [result] else results)
                 in Option.bind
                      (recurse_loop graph (neighbors graph endKey) endKey pth lat results' predicate s')
                      (\<lambda>(results'', s'').
                         recurse_loop graph entries' startKey startPath startLatency results''
                           predicate s''))))"

definition recurse ::
  "('k, int) graph \<Rightarrow> 'k \<Rightarrow> 'k list \<Rightarrow> int \<Rightarrow> 'k result list \<Rightarrow> ('k, 's) predicate \<Rightarrow> 's \<Rightarrow>
   ('k result list \<times> 's) option" where
  "recurse graph startKey startPath startLatency results predicate s =
     recurse_loop graph (neighbors graph startKey) startKey startPath startLatency results
       predicate s"

text \<open>Lines 45 to 47: \<^verbatim>\<open>return recurse(graph, startKey, [startKey], 0, [], predicate);\<close>\<close>

definition find_paths ::
  "('k, int) graph \<Rightarrow> 'k \<Rightarrow> ('k, 's) predicate \<Rightarrow> 's \<Rightarrow> ('k result list \<times> 's) option" where
  "find_paths graph startKey predicate s = recurse graph startKey [startKey] 0 [] predicate s"

section \<open>The predicates of the tests\<close>

text \<open>
  Lines 134 to 139, the predicate of the test ``originating in service C and ending in
  service C with a maximum of 3 hops''. It has no state.
  \<^verbatim>\<open>
  if (path.length > 4) return STOP;
  if (endKey === 'C') return INCLUDE;
  return CONTINUE;
  \<close>
\<close>

definition predicate_max_3_hops :: "(string, unit) predicate" where
  "predicate_max_3_hops s result startKey endKey =
     (if length (path result) > 4 then (STOP, s)
      else if endKey = ''C'' then (INCLUDE, s)
      else (CONTINUE, s))"

text \<open>
  Lines 161 and 169 to 179, the predicate of the test ``the shortest trace between A
  and C''. Its state is the variable \<^verbatim>\<open>min\<close> (here \<open>min0\<close>), which starts as
  \<^verbatim>\<open>Number.POSITIVE_INFINITY\<close>; \<^verbatim>\<open>latency >= min\<close> is false while it is infinite.
  \<^verbatim>\<open>
  if (latency >= min) return STOP;
  if (endKey === 'C') { min = latency; return INCLUDE; }
  return CONTINUE;
  \<close>
\<close>

datatype bound = POSITIVE_INFINITY | Finite int

fun at_least :: "int \<Rightarrow> bound \<Rightarrow> bool" where
  "at_least n POSITIVE_INFINITY = False"
| "at_least n (Finite m) = (n \<ge> m)"

definition predicate_shortest :: "(string, bound) predicate" where
  "predicate_shortest min0 result startKey endKey =
     (if at_least (latency result) min0 then (STOP, min0)
      else if endKey = ''C'' then (INCLUDE, Finite (latency result))
      else (CONTINUE, min0))"

text \<open>
  Lines 152 to 157, the predicate of the test ``originating in A and ending in C with
  exactly 4 hops''.
  \<^verbatim>\<open>
  if (path.length > 5) return STOP;
  if (path.length === 5 && endKey === 'C') return INCLUDE;
  return CONTINUE;
  \<close>
\<close>

definition predicate_exactly_4_hops :: "(string, unit) predicate" where
  "predicate_exactly_4_hops s result startKey endKey =
     (if length (path result) > 5 then (STOP, s)
      else if length (path result) = 5 \<and> endKey = ''C'' then (INCLUDE, s)
      else (CONTINUE, s))"

text \<open>
  Lines 223 to 227, the predicate of the test ``from C to C with an average latency
  of less than 30''.
  \<^verbatim>\<open>
  if (latency >= 30) return STOP;
  if (endKey === 'C') return INCLUDE;
  return CONTINUE;
  \<close>
\<close>

definition predicate_below_30 :: "(string, unit) predicate" where
  "predicate_below_30 s result startKey endKey =
     (if latency result \<ge> 30 then (STOP, s)
      else if endKey = ''C'' then (INCLUDE, s)
      else (CONTINUE, s))"

text \<open>
  Lines 183 and 193 to 206, the predicate of the test ``the shortest trace between B
  and B''. An index below 0 reads \<^verbatim>\<open>undefined\<close>, which is no key.
  \<^verbatim>\<open>
  if (path[path.length - 4] === startKey && path[path.length - 3] === endKey) return STOP;
  if (latency >= min) return STOP;
  if (endKey === 'B') { min = latency; return INCLUDE; }
  return CONTINUE;
  \<close>
\<close>

definition predicate_shortest_cycle :: "(string, bound) predicate" where
  "predicate_shortest_cycle min0 result startKey endKey =
     (let p = path result in
      if length p \<ge> 4 \<and> p ! (length p - 4) = startKey \<and> p ! (length p - 3) = endKey
        then (STOP, min0)
      else if at_least (latency result) min0 then (STOP, min0)
      else if endKey = ''B'' then (INCLUDE, Finite (latency result))
      else (CONTINUE, min0))"

section \<open>parse\<close>

text \<open>
  Lines 11 to 26. \<^verbatim>\<open>parse\<close> reads a file and splits its text at the commas; the
  model starts from the text. A string is a list of characters (the data are ASCII).

  \<^verbatim>\<open>trace[0]\<close> is a string of one character, or \<^verbatim>\<open>undefined\<close> when the record is
  too short; used as a property key, \<^verbatim>\<open>undefined\<close> is the key \<^verbatim>\<open>"undefined"\<close>.
\<close>

fun split_comma :: "string \<Rightarrow> string list" where
  "split_comma [] = [[]]"
| "split_comma (c # cs) =
     (if c = CHR '','' then [] # split_comma cs
      else (case split_comma cs of [] \<Rightarrow> [[c]] | t # ts \<Rightarrow> (c # t) # ts))"

definition char_key :: "string \<Rightarrow> nat \<Rightarrow> string" where
  "char_key trace i = (if i < length trace then [trace ! i] else ''undefined'')"

text \<open>
  \<^verbatim>\<open>+trace.substr(2)\<close> converts the rest of the record to a number: white space
  around it is dropped, the empty text is 0, a decimal integer with an optional sign is
  its value (exactly: the rounding of an integer beyond \<open>2\<^sup>5\<^sup>3\<close> to a double is
  left out). Every other text gives a number that is not computed here (\<^verbatim>\<open>NaN\<close>, or
  the value of a literal with a fraction, an exponent or a radix prefix, or of
  \<^verbatim>\<open>Infinity\<close>): it is kept as \<open>OtherNumber\<close> of the text.
\<close>

datatype js_number = Integer int | OtherNumber string

definition is_digit :: "char \<Rightarrow> bool" where
  "is_digit c \<longleftrightarrow> c \<in> set ''0123456789''"

definition is_space :: "char \<Rightarrow> bool" where
  "is_space c \<longleftrightarrow> c \<in> {CHR '' '', CHR 0x09, CHR 0x0A, CHR 0x0B, CHR 0x0C, CHR 0x0D}"

definition trim :: "string \<Rightarrow> string" where
  "trim s = rev (dropWhile is_space (rev (dropWhile is_space s)))"

definition decimal :: "string \<Rightarrow> nat" where
  "decimal ds = foldl (\<lambda>n c. 10 * n + (of_char c - 48)) 0 ds"

definition is_decimal :: "string \<Rightarrow> bool" where
  "is_decimal ds \<longleftrightarrow> ds \<noteq> [] \<and> list_all is_digit ds"

definition to_number :: "string \<Rightarrow> js_number" where
  "to_number s =
     (let t = trim s
      in if t = [] then Integer 0
         else if is_decimal t then Integer (int (decimal t))
         else if hd t = CHR ''+'' \<and> is_decimal (tl t) then Integer (int (decimal (tl t)))
         else if hd t = CHR ''-'' \<and> is_decimal (tl t) then Integer (- int (decimal (tl t)))
         else OtherNumber t)"

text \<open>
  Writing a property: an own property keeps its place and takes the new value; a new
  one goes after the others, but for a key that is an array index (the decimal text of
  an integer below \<open>2\<^sup>3\<^sup>2 - 1\<close>), which \<^verbatim>\<open>Object.entries\<close> reports first and
  in ascending order.
\<close>

definition is_array_index :: "string \<Rightarrow> bool" where
  "is_array_index k \<longleftrightarrow>
     is_decimal k \<and> (k = ''0'' \<or> hd k \<noteq> CHR ''0'') \<and> decimal k < 4294967295"

fun obj_set :: "(string, 'v) obj \<Rightarrow> string \<Rightarrow> 'v \<Rightarrow> (string, 'v) obj" where
  "obj_set [] k v = [(k, v)]"
| "obj_set ((k', v') # ps) k v =
     (if k' = k then (k, v) # ps
      else if is_array_index k \<and> (\<not> is_array_index k' \<or> decimal k < decimal k')
           then (k, v) # (k', v') # ps
      else (k', v') # obj_set ps k v)"

text \<open>
  The body of the loop, lines 17 to 22, and the loop. Line 22 writes into the object
  that \<^verbatim>\<open>results[start]\<close> holds, which stays where it is in \<^verbatim>\<open>results\<close>.
\<close>

definition parse_trace ::
  "(string, js_number) graph \<Rightarrow> string \<Rightarrow> (string, js_number) graph" where
  "parse_trace results trace =
     (let start = char_key trace 0;
          end = char_key trace 1;
          latency = to_number (drop 2 trace);
          results' = (if map_of results start = None then obj_set results start [] else results)
      in obj_set results' start (obj_set (neighbors results' start) end latency))"

definition parse :: "string \<Rightarrow> error + (string, js_number) graph" where
  "parse contents = Inr (foldl parse_trace [] (split_comma contents))"

text \<open>
  A record the specification takes as well formed: two characters and a non-negative
  decimal integer.
\<close>

definition decodable :: "string \<Rightarrow> bool" where
  "decodable trace \<longleftrightarrow> length trace > 2 \<and> is_decimal (drop 2 trace)"

section \<open>Paths of the graph\<close>

text \<open>
  A path all of whose consecutive pairs \<open>(path[i-1], path[i])\<close> are edges of the
  graph, and the sum of the weights of those edges (a pair that is no edge, which
  such a path does not have, counts 0).
\<close>

fun valid_path :: "('k, 'w) graph \<Rightarrow> 'k list \<Rightarrow> bool" where
  "valid_path graph (a # b # p) \<longleftrightarrow> edge_weight graph a b \<noteq> None \<and> valid_path graph (b # p)"
| "valid_path graph p \<longleftrightarrow> True"

definition weight_of :: "('k, int) graph \<Rightarrow> 'k \<Rightarrow> 'k \<Rightarrow> int" where
  "weight_of graph a b = (case edge_weight graph a b of None \<Rightarrow> 0 | Some w \<Rightarrow> w)"

fun path_weight :: "('k, int) graph \<Rightarrow> 'k list \<Rightarrow> int" where
  "path_weight graph (a # b # p) = weight_of graph a b + path_weight graph (b # p)"
| "path_weight graph p = 0"

section \<open>The decision contract of the specification\<close>

text \<open>
  The specification's three decisions, and the traversal it describes in its section
  4.3, as a relation between the results and state before and after the edges
  \<open>edges\<close> of the node \<open>cur\<close> are walked with the path \<open>P\<close> of weight \<open>W\<close>:
  \<^item> \<open>Stop\<close>: the candidate is not included and nothing is walked past it;
  \<^item> \<open>Include\<close>: the candidate is appended to the results and the walk goes on from
    \<open>nxt\<close>;
  \<^item> \<open>Continue\<close>: the candidate is not included and the walk goes on from \<open>nxt\<close>.
\<close>

datatype decision = Stop | Continue | Include




text \<open>
  The decisions as the values of lines 5 to 7, and a decision function as the
  predicate that returns them.
\<close>

fun tag :: "decision \<Rightarrow> js_value" where
  "tag Stop = STOP"
| "tag Continue = CONTINUE"
| "tag Include = INCLUDE"



definition predicate_no_return :: "(string, unit) predicate" where
  "predicate_no_return s result startKey endKey =
     (if length (path result) > 4 then (STOP, s)
      else if endKey = ''C'' then (INCLUDE, s)
      else (Undefined, s))"

text \<open>
  A predicate whose every return value other than \<open>STOP\<close> and \<open>INCLUDE\<close> is replaced by
  \<open>CONTINUE\<close>.
\<close>

definition as_continue :: "('k, 's) predicate \<Rightarrow> ('k, 's) predicate" where
  "as_continue predicate s result startKey endKey =
     (case predicate s result startKey endKey of
        (status, s') \<Rightarrow> (if status = STOP \<or> status = INCLUDE then status else CONTINUE, s'))"

text \<open>
  The least weight of a path from A to each node of the reference graph (0 for a
  node it does not have): the potential that bounds the weight of every path from A.
\<close>

definition dist_A :: "string \<Rightarrow> int" where
  "dist_A k = (if k = ''B'' then 5 else if k = ''D'' then 5 else if k = ''E'' then 7
     else if k = ''C'' then 9 else 0)"

section \<open>getLatency on every path: inherited properties and doubles\<close>

text \<open>
  The graph is a plain object, so \<^verbatim>\<open>graph[start]\<close> and \<^verbatim>\<open>parent[end]\<close> also find
  what \<^verbatim>\<open>Object.prototype\<close> holds under these names (the standard's, with its
  annex B); no line of the source asks whether a property is the object's own.
\<close>

definition object_prototype_names :: "string list" where
  "object_prototype_names =
     [''constructor'', ''__defineGetter__'', ''__defineSetter__'', ''hasOwnProperty'',
      ''__lookupGetter__'', ''__lookupSetter__'', ''isPrototypeOf'', ''propertyIsEnumerable'',
      ''toString'', ''valueOf'', ''__proto__'', ''toLocaleString'']"

text \<open>
  Lines 35 and 50: \<^verbatim>\<open>graph[start] || {}\<close> is the object the graph holds under
  \<^verbatim>\<open>start\<close>; or, for a name the graph does not hold, the built-in object that
  \<^verbatim>\<open>Object.prototype\<close> holds under it (a function, or \<^verbatim>\<open>Object.prototype\<close> itself
  for \<^verbatim>\<open>__proto__\<close>: all truthy); or else the empty object. A built-in object has
  no own enumerable property: \<^verbatim>\<open>Object.entries\<close> of it is empty, as \<open>neighbors\<close> says.
\<close>

datatype 'w parent = Ordinary "(string, 'w) obj" | Builtin string

definition parent_of :: "(string, 'w) graph \<Rightarrow> string \<Rightarrow> 'w parent" where
  "parent_of graph start =
     (case map_of graph start of
        Some parent \<Rightarrow> Ordinary parent
      | None \<Rightarrow> if start \<in> set object_prototype_names then Builtin start else Ordinary [])"

fun entries_of :: "'w parent \<Rightarrow> (string, 'w) obj" where
  "entries_of (Ordinary parent) = parent"
| "entries_of (Builtin b) = []"

text \<open>
  Line 36: \<^verbatim>\<open>parent[end]\<close>. An ordinary object gives its own property, or the
  built-in object it inherits under that name, or \<^verbatim>\<open>undefined\<close>. What a property
  of a built-in object reads as (a number for \<^verbatim>\<open>length\<close>, a string for \<^verbatim>\<open>name\<close>,
  a function, nothing, or an error thrown for \<^verbatim>\<open>caller\<close>) is the host's matter:
  the model stops there and says which property was read.
\<close>

datatype 'w read = Absent | Weight 'w | Inherited string | Of_builtin string string

definition read_property :: "'w parent \<Rightarrow> string \<Rightarrow> 'w read" where
  "read_property parent end =
     (case parent of
        Ordinary ps \<Rightarrow>
          (case map_of ps end of
             Some w \<Rightarrow> Weight w
           | None \<Rightarrow> if end \<in> set object_prototype_names then Inherited end else Absent)
      | Builtin b \<Rightarrow> Of_builtin b end)"

text \<open>
  Line 39: \<^verbatim>\<open>result += latency\<close>. \<^verbatim>\<open>result\<close> is a number until an inherited
  object is added to it, and a string from then on.
\<close>

datatype accumulator = Number_acc number | String_acc "piece list"

fun accumulate :: "accumulator \<Rightarrow> piece \<Rightarrow> accumulator" where
  "accumulate (Number_acc a) (Digits b) = Number_acc (js_add a b)"
| "accumulate (Number_acc a) (Text_of k) = String_acc [Digits a, Text_of k]"
| "accumulate (String_acc ps) p = String_acc (ps @ [p])"

fun value_of :: "accumulator \<Rightarrow> js_value" where
  "value_of (Number_acc a) = number_value a"
| "value_of (String_acc ps) = Joined ps"

text \<open>
  Lines 28 to 43 again, now for every path. The call returns a value, or it reads a
  property of a built-in object, after which the model does not follow it.
\<close>

datatype outcome = Returns js_value | Reads_builtin string string

function getLatency_js_loop ::
  "(string, int) graph \<Rightarrow> string list \<Rightarrow> nat \<Rightarrow> accumulator \<Rightarrow> outcome" where
  "getLatency_js_loop graph pth i result =
     (if i < length pth then
        (let start = pth ! (i - 1);
             end = pth ! i;
             parent = parent_of graph start
         in case read_property parent end of
              Absent \<Rightarrow> Returns (Str ''NO SUCH TRACE'')
            | Weight w \<Rightarrow>
                getLatency_js_loop graph pth (i + 1) (accumulate result (Digits (Fin w)))
            | Inherited k \<Rightarrow>
                getLatency_js_loop graph pth (i + 1) (accumulate result (Text_of k))
            | Of_builtin b k \<Rightarrow> Reads_builtin b k)
      else Returns (value_of result))"
  by pat_completeness auto
termination
  by (relation "measure (\<lambda>(graph, pth, i, result). length pth - i)") auto

definition getLatency_js :: "(string, int) graph \<Rightarrow> string list \<Rightarrow> outcome" where
  "getLatency_js graph pth = getLatency_js_loop graph pth 1 (Number_acc (Fin 0))"

text \<open>
  The sum of the weights along a path as the doubles add them, from the left; the
  paths whose sums, one edge after the other, stay among the integers that a double
  holds one by one (up to \<open>2\<^sup>5\<^sup>3\<close> either way); and the first consecutive pair of
  a path that is no edge of the graph.
\<close>

fun double_sum_from :: "number \<Rightarrow> ('k, int) graph \<Rightarrow> 'k list \<Rightarrow> number" where
  "double_sum_from acc graph (a # b # p) =
     double_sum_from (js_add acc (Fin (weight_of graph a b))) graph (b # p)"
| "double_sum_from acc graph p = acc"

definition double_sum :: "('k, int) graph \<Rightarrow> 'k list \<Rightarrow> number" where
  "double_sum graph p = double_sum_from (Fin 0) graph p"

fun safe_from :: "int \<Rightarrow> ('k, int) graph \<Rightarrow> 'k list \<Rightarrow> bool" where
  "safe_from n graph (a # b # p) \<longleftrightarrow>
     \<bar>n + weight_of graph a b\<bar> \<le> 2 ^ 53 \<and> safe_from (n + weight_of graph a b) graph (b # p)"
| "safe_from n graph p \<longleftrightarrow> True"

definition safe_path :: "('k, int) graph \<Rightarrow> 'k list \<Rightarrow> bool" where
  "safe_path graph p \<longleftrightarrow> safe_from 0 graph p"

fun first_gap :: "('k, 'w) graph \<Rightarrow> 'k list \<Rightarrow> ('k \<times> 'k) option" where
  "first_gap graph (a # b # p) =
     (if edge_weight graph a b = None then Some (a, b) else first_gap graph (b # p))"
| "first_gap graph p = None"

text \<open>
  A pair that is no edge reads as \<^verbatim>\<open>undefined\<close> when neither name is found in
  \<^verbatim>\<open>Object.prototype\<close>: the end is no inherited name, and the start is a node of
  the graph or no inherited name.
\<close>

definition plain_gap :: "(string, 'w) graph \<Rightarrow> string \<Rightarrow> string \<Rightarrow> bool" where
  "plain_gap graph a b \<longleftrightarrow>
     b \<notin> set object_prototype_names \<and>
     (map_of graph a \<noteq> None \<or> a \<notin> set object_prototype_names)"

text \<open>
  A graph whose weights add up beyond \<open>2\<^sup>5\<^sup>3\<close>:
  \<^verbatim>\<open>{A: {B: 9007199254740992}, B: {C: 1}}\<close>.
\<close>

definition big_graph :: "(string, int) graph" where
  "big_graph = [(''A'', [(''B'', 9007199254740992)]), (''B'', [(''C'', 1)])]"

section \<open>find with a predicate that writes, and doubles\<close>

text \<open>
  Lines 54 to 69 once more. The object \<^verbatim>\<open>result\<close> that the predicate is handed is
  the object that is pushed, and its \<^verbatim>\<open>path\<close> is the array that the recursion is
  given: what the predicate writes to them while it is called shows in both. Such a
  predicate returns, besides its value and its new state, the content of the array
  \<^verbatim>\<open>path\<close> and the object \<^verbatim>\<open>result\<close> as it leaves them. The variable
  \<^verbatim>\<open>latency\<close> is a number of \<^verbatim>\<open>recurse\<close>'s own, out of the predicate's reach;
  line 53 adds doubles. (A predicate that keeps an object or an array and writes to
  it in a later call, one that writes to the graph and one that throws are outside
  this model as well.)
\<close>

record 'k candidate =
  cpath :: "'k list"
  clatency :: number

type_synonym ('k, 's) reader = "'s \<Rightarrow> 'k candidate \<Rightarrow> 'k \<Rightarrow> 'k \<Rightarrow> js_value \<times> 's"

type_synonym ('k, 's) writer =
  "'s \<Rightarrow> 'k candidate \<Rightarrow> 'k \<Rightarrow> 'k \<Rightarrow> js_value \<times> 's \<times> 'k list \<times> 'k candidate"

partial_function (option) recurse_w_loop ::
  "('k, int) graph \<Rightarrow> ('k, int) obj \<Rightarrow> 'k \<Rightarrow> 'k list \<Rightarrow> number \<Rightarrow> 'k candidate list \<Rightarrow>
   ('k, 's) writer \<Rightarrow> 's \<Rightarrow> ('k candidate list \<times> 's) option" where
  "recurse_w_loop graph entries startKey startPath startLatency results predicate s =
     (case entries of
        [] \<Rightarrow> Some (results, s)
      | (endKey, meanLatency) # entries' \<Rightarrow>
          (let lat = js_add startLatency (Fin meanLatency);
               pth = startPath @ [endKey];
               result = \<lparr>cpath = pth, clatency = lat\<rparr>;
               (status, s', pth', result') = predicate s result startKey endKey
           in if status = STOP then
                recurse_w_loop graph entries' startKey startPath startLatency results predicate s'
              else
                (let results' = (if status = INCLUDE then results @ [result'] else results)
                 in Option.bind
                      (recurse_w_loop graph (neighbors graph endKey) endKey pth' lat results'
                         predicate s')
                      (\<lambda>(results'', s'').
                         recurse_w_loop graph entries' startKey startPath startLatency results''
                           predicate s''))))"

definition find_w ::
  "('k, int) graph \<Rightarrow> 'k \<Rightarrow> ('k, 's) writer \<Rightarrow> 's \<Rightarrow> ('k candidate list \<times> 's) option" where
  "find_w graph startKey predicate s =
     recurse_w_loop graph (neighbors graph startKey) startKey [startKey] (Fin 0) [] predicate s"

text \<open>A predicate that only reads leaves the array and the object as they are.\<close>

definition reading :: "('k, 's) reader \<Rightarrow> ('k, 's) writer" where
  "reading predicate s result startKey endKey =
     (case predicate s result startKey endKey of (status, s') \<Rightarrow> (status, s', cpath result, result))"

text \<open>
  The predicate of lines 152 to 157 once more, reading such a candidate; the
  predicate \<^verbatim>\<open>() => INCLUDE\<close>; and a predicate that writes:
  \<^verbatim>\<open>
  function (result, startKey, endKey) {
    result.latency = 0;
    if (result.path.length > 2) return STOP;
    return INCLUDE;
  }
  \<close>
\<close>

definition reader_exactly_4_hops :: "(string, unit) reader" where
  "reader_exactly_4_hops s result startKey endKey =
     (if length (cpath result) > 5 then (STOP, s)
      else if length (cpath result) = 5 \<and> endKey = ''C'' then (INCLUDE, s)
      else (CONTINUE, s))"

definition reader_include_all :: "(string, unit) reader" where
  "reader_include_all s result startKey endKey = (INCLUDE, s)"

definition writer_zero_latency :: "(string, unit) writer" where
  "writer_zero_latency s result startKey endKey =
     (if length (cpath result) > 2 then STOP else INCLUDE, s, cpath result,
      result\<lparr>clatency := Fin 0\<rparr>)"

text \<open>What a result of \<open>find_w\<close> from \<open>start\<close> is when the predicate only reads.\<close>

definition sound_candidate :: "('k, int) graph \<Rightarrow> 'k \<Rightarrow> 'k candidate \<Rightarrow> bool" where
  "sound_candidate graph start r \<longleftrightarrow>
     cpath r \<noteq> [] \<and> hd (cpath r) = start \<and> valid_path graph (cpath r) \<and>
     double_sum graph (cpath r) = clatency r"

section \<open>The loop of recurse, equation by equation\<close>

lemma recurse_loop_Nil:
  "recurse_loop graph [] startKey startPath startLatency results predicate s = Some (results, s)"
  by (subst recurse_loop.simps) simp

lemma recurse_loop_Cons:
  "recurse_loop graph ((endKey, meanLatency) # entries') startKey startPath startLatency results
     predicate s =
   (let lat = startLatency + meanLatency;
        pth = startPath @ [endKey];
        result = \<lparr>path = pth, latency = lat\<rparr>;
        (status, s') = predicate s result startKey endKey
    in if status = STOP then
         recurse_loop graph entries' startKey startPath startLatency results predicate s'
       else
         (let results' = (if status = INCLUDE then results @ [result] else results)
          in Option.bind
               (recurse_loop graph (neighbors graph endKey) endKey pth lat results' predicate s')
               (\<lambda>(results'', s'').
                  recurse_loop graph entries' startKey startPath startLatency results''
                    predicate s'')))"
  by (subst recurse_loop.simps) simp

lemmas graph_eval = reference_graph_def neighbors_def edge_weight_def weight_of_def

lemmas run_eval = find_paths_def recurse_def recurse_loop_Nil recurse_loop_Cons
  STOP_def CONTINUE_def INCLUDE_def

section \<open>getLatency, path by path\<close>

text \<open>
  The equation of the loop is used one step at a time. The loop at index \<open>i\<close> has
  the pairs from \<open>(path[i-1], path[i])\<close> on still to read.
\<close>

declare getLatency_loop.simps [simp del]

lemma drop_pair:
  assumes "1 \<le> i" "i < length p"
  shows "drop (i - 1) p = p ! (i - 1) # p ! i # drop (i + 1) p"
proof -
  have "drop (i - 1) p = p ! (i - 1) # drop i p"
    using assms Cons_nth_drop_Suc[of "i - 1" p] by simp
  also have "drop i p = p ! i # drop (i + 1) p"
    using assms Cons_nth_drop_Suc[of i p] by simp
  finally show ?thesis .
qed

lemma short_path:
  "length p \<le> 1 \<Longrightarrow> valid_path graph p \<and> path_weight graph p = 0"
  by (cases "(graph, p)" rule: valid_path.cases) auto

lemma getLatency_loop_eq:
  "1 \<le> i \<Longrightarrow>
   getLatency_loop graph p i r =
     (if valid_path graph (drop (i - 1) p) then Num (r + path_weight graph (drop (i - 1) p))
      else Str ''NO SUCH TRACE'')"
proof (induction graph p i r rule: getLatency_loop.induct)
  case (1 graph pth i result)
  show ?case
  proof (cases "i < length pth")
    case False
    then have "length (drop (i - 1) pth) \<le> 1" by simp
    then have "valid_path graph (drop (i - 1) pth) \<and> path_weight graph (drop (i - 1) pth) = 0"
      by (rule short_path)
    with False show ?thesis by (subst getLatency_loop.simps) simp
  next
    case True
    note dp = drop_pair[OF "1.prems" True]
    have di: "drop i pth = pth ! i # drop (i + 1) pth"
      using True Cons_nth_drop_Suc[of i pth] by simp
    show ?thesis
    proof (cases "edge_weight graph (pth ! (i - 1)) (pth ! i)")
      case None
      then show ?thesis
        using True dp by (subst getLatency_loop.simps) (simp add: edge_weight_def)
    next
      case (Some w)
      have "getLatency_loop graph pth (i + 1) (result + w) =
          (if valid_path graph (drop i pth) then Num (result + w + path_weight graph (drop i pth))
           else Str ''NO SUCH TRACE'')"
        using "1.IH"[OF True refl refl refl, of w] Some by (simp add: edge_weight_def)
      then show ?thesis
        using True Some dp di
        by (subst getLatency_loop.simps) (simp add: edge_weight_def weight_of_def)
    qed
  qed
qed

lemma getLatency_eq:
  "getLatency graph p =
     Inr (if valid_path graph p then Num (path_weight graph p) else Str ''NO SUCH TRACE'')"
  by (simp add: getLatency_def getLatency_loop_eq)

lemma valid_path_snoc:
  "valid_path graph (p @ [k]) \<longleftrightarrow>
     valid_path graph p \<and> (p = [] \<or> edge_weight graph (last p) k \<noteq> None)"
  by (induction graph p rule: valid_path.induct) auto

section \<open>The entries of a node are edges of the graph\<close>

lemma neighbors_distinct:
  "wf_graph graph \<Longrightarrow> distinct (map fst (neighbors graph k))"
  by (auto simp: wf_graph_def neighbors_def list_all_iff split: option.splits dest!: map_of_SomeD)

lemma entry_edge_weight:
  "wf_graph graph \<Longrightarrow> (endKey, w) \<in> set (neighbors graph startKey) \<Longrightarrow>
   edge_weight graph startKey endKey = Some w"
  by (simp add: edge_weight_def neighbors_distinct)

section \<open>recurse and the walk of the specification\<close>

lemma tag_eq [simp]:
  "tag d = STOP \<longleftrightarrow> d = Stop" "tag d = INCLUDE \<longleftrightarrow> d = Include"
  by (cases d; simp add: STOP_def CONTINUE_def INCLUDE_def)+



section \<open>Return values that are neither STOP nor INCLUDE\<close>

lemma as_continue_le:
  assumes "recurse_loop graph entries startKey startPath startLatency results predicate s = Some out"
  shows "recurse_loop graph entries startKey startPath startLatency results (as_continue predicate) s
           = Some out"
  using assms
proof (induction graph entries startKey startPath startLatency results predicate s out
    rule: recurse_loop.raw_induct[rotated 1, consumes 1])
  case (1 loop graph entries startKey startPath startLatency results predicate s out)
  show ?case
  proof (cases entries)
    case Nil
    with "1.hyps" show ?thesis by (simp add: recurse_loop_Nil)
  next
    case (Cons e entries')
    obtain endKey w where e: "e = (endKey, w)" by (cases e)
    define result where "result = \<lparr>path = startPath @ [endKey], latency = startLatency + w\<rparr>"
    obtain status s1 where pr: "predicate s result startKey endKey = (status, s1)"
      by (cases "predicate s result startKey endKey")
    show ?thesis
    proof (cases "status = STOP")
      case True
      then have "loop graph entries' startKey startPath startLatency results predicate s1 = Some out"
        using "1.hyps" Cons e pr by (simp add: Let_def result_def)
      from "1.IH"[OF this] show ?thesis
        unfolding Cons e using pr True
        by (simp add: recurse_loop_Cons as_continue_def result_def)
    next
      case False
      define results1 where "results1 = (if status = INCLUDE then results @ [result] else results)"
      from False obtain rs2 s2 where
        m1: "loop graph (neighbors graph endKey) endKey (startPath @ [endKey]) (startLatency + w)
               results1 predicate s1 = Some (rs2, s2)" and
        m2: "loop graph entries' startKey startPath startLatency rs2 predicate s2 = Some out"
        using "1.hyps" Cons e pr
        by (auto simp: Let_def result_def results1_def bind_eq_Some_conv split: if_splits)
      from "1.IH"[OF m1] "1.IH"[OF m2] show ?thesis
        unfolding Cons e using pr False
        by (auto simp: recurse_loop_Cons as_continue_def result_def results1_def Let_def
            STOP_def INCLUDE_def CONTINUE_def)
    qed
  qed
qed

lemma as_continue_ge:
  assumes "recurse_loop graph entries startKey startPath startLatency results predicate' s = Some out"
    and "predicate' = as_continue predicate"
  shows "recurse_loop graph entries startKey startPath startLatency results predicate s = Some out"
  using assms
proof (induction graph entries startKey startPath startLatency results predicate' s out
    rule: recurse_loop.raw_induct[rotated 1, consumes 1])
  case (1 loop graph entries startKey startPath startLatency results predicate' s out)
  note pd = \<open>predicate' = as_continue predicate\<close>
  show ?case
  proof (cases entries)
    case Nil
    with "1.hyps" show ?thesis by (simp add: recurse_loop_Nil)
  next
    case (Cons e entries')
    obtain endKey w where e: "e = (endKey, w)" by (cases e)
    define result where "result = \<lparr>path = startPath @ [endKey], latency = startLatency + w\<rparr>"
    obtain status s1 where pr: "predicate s result startKey endKey = (status, s1)"
      by (cases "predicate s result startKey endKey")
    show ?thesis
    proof (cases "status = STOP")
      case True
      then have "loop graph entries' startKey startPath startLatency results predicate' s1 = Some out"
        using "1.hyps" Cons e pr by (simp add: Let_def result_def pd as_continue_def)
      from "1.IH"[OF this pd] show ?thesis
        unfolding Cons e using pr True
        by (simp add: recurse_loop_Cons result_def)
    next
      case False
      define results1 where "results1 = (if status = INCLUDE then results @ [result] else results)"
      from False obtain rs2 s2 where
        m1: "loop graph (neighbors graph endKey) endKey (startPath @ [endKey]) (startLatency + w)
               results1 predicate' s1 = Some (rs2, s2)" and
        m2: "loop graph entries' startKey startPath startLatency rs2 predicate' s2 = Some out"
        using "1.hyps" Cons e pr
        by (auto simp: Let_def result_def results1_def bind_eq_Some_conv pd as_continue_def
            STOP_def INCLUDE_def CONTINUE_def split: if_splits)
      from "1.IH"[OF m1 pd] "1.IH"[OF m2 pd] show ?thesis
        unfolding Cons e using pr False
        by (auto simp: recurse_loop_Cons result_def results1_def Let_def)
    qed
  qed
qed

section \<open>parse, record by record\<close>

lemmas parse_eval = parse_def parse_trace_def char_key_def to_number_def trim_def is_space_def
  is_decimal_def is_digit_def decimal_def is_array_index_def neighbors_def Let_def

text \<open>
  The edge list of the specification's section 8 parses to the reference graph, in
  the order of its entries; keys that are array indices come first, an edge written
  twice keeps its place and takes the later weight, white space around the number is
  dropped and a number that is no decimal integer is kept as it is written.
\<close>

lemma parse_edge_list:
  "parse ''AB5,AD5,AE7,BC4,CD8,CE2,DC8,DE6,EB3'' =
     Inr [(''A'', [(''B'', Integer 5), (''D'', Integer 5), (''E'', Integer 7)]),
          (''B'', [(''C'', Integer 4)]),
          (''C'', [(''D'', Integer 8), (''E'', Integer 2)]),
          (''D'', [(''C'', Integer 8), (''E'', Integer 6)]),
          (''E'', [(''B'', Integer 3)])]"
  by (simp add: parse_eval)

lemma parse_array_index_keys:
  "parse ''A15,A03,Ax-7,A1 12 ,AB1.5,B57\<newline>'' =
     Inr [(''A'', [(''0'', Integer 3), (''1'', Integer 12), (''x'', Integer (- 7)),
                   (''B'', OtherNumber ''1.5'')]),
          (''B'', [(''5'', Integer 7)])]"
  by (simp add: parse_eval)

lemma map_of_obj_set:
  "map_of (obj_set ps k v) k' = (if k' = k then Some v else map_of ps k')"
  by (induction ps) auto

lemma neighbors_parse_trace:
  "neighbors (parse_trace results trace) a =
     (if a = char_key trace 0
      then obj_set (neighbors results a) (char_key trace 1) (to_number (drop 2 trace))
      else neighbors results a)"
  by (simp add: parse_trace_def neighbors_def map_of_obj_set Let_def)

lemma edge_weight_parse_trace:
  "edge_weight (parse_trace results trace) a b =
     (if a = char_key trace 0 \<and> b = char_key trace 1 then Some (to_number (drop 2 trace))
      else edge_weight results a b)"
  by (simp add: edge_weight_def neighbors_parse_trace map_of_obj_set)

lemma edge_weight_foldl_other:
  "\<forall>t \<in> set post. (char_key t 0, char_key t 1) \<noteq> (a, b) \<Longrightarrow>
   edge_weight (foldl parse_trace results post) a b = edge_weight results a b"
  by (induction post arbitrary: results) (auto simp: edge_weight_parse_trace)

lemma edge_weight_foldl_last:
  "\<forall>t \<in> set post. (char_key t 0, char_key t 1) \<noteq> (char_key trace 0, char_key trace 1) \<Longrightarrow>
   edge_weight (foldl parse_trace results (pre @ trace # post)) (char_key trace 0) (char_key trace 1)
     = Some (to_number (drop 2 trace))"
  by (simp add: edge_weight_foldl_other edge_weight_parse_trace)

section \<open>No path from A to C is lighter than 9\<close>

lemma reference_potential:
  "edge_weight reference_graph u v = Some w \<Longrightarrow> dist_A v \<le> dist_A u + w"
  by (auto simp: reference_graph_def neighbors_def edge_weight_def dist_A_def split: if_splits)

lemma potential_path:
  "valid_path reference_graph p \<Longrightarrow> p \<noteq> [] \<Longrightarrow>
   dist_A (last p) \<le> dist_A (hd p) + path_weight reference_graph p"
proof (induction reference_graph p rule: valid_path.induct)
  case (1 a b p)
  then obtain w where w: "edge_weight reference_graph a b = Some w" by auto
  from reference_potential[OF w] 1 w show ?case by (simp add: weight_of_def)
qed simp_all

section \<open>The other tests of the source\<close>

text \<open>
  The tests of lines 182 to 228 pass on the model: the results, their order and the
  final value of \<^verbatim>\<open>min\<close> are those the tests assert.
\<close>

lemma find_from_C_below_30:
  "find_paths reference_graph ''C'' predicate_below_30 () =
     Some ([\<lparr>path = [''C'', ''D'', ''C''], latency = 16\<rparr>,
            \<lparr>path = [''C'', ''D'', ''C'', ''E'', ''B'', ''C''], latency = 25\<rparr>,
            \<lparr>path = [''C'', ''D'', ''E'', ''B'', ''C''], latency = 21\<rparr>,
            \<lparr>path = [''C'', ''E'', ''B'', ''C''], latency = 9\<rparr>,
            \<lparr>path = [''C'', ''E'', ''B'', ''C'', ''D'', ''C''], latency = 25\<rparr>,
            \<lparr>path = [''C'', ''E'', ''B'', ''C'', ''E'', ''B'', ''C''], latency = 18\<rparr>,
            \<lparr>path = [''C'', ''E'', ''B'', ''C'', ''E'', ''B'', ''C'', ''E'', ''B'', ''C''],
              latency = 27\<rparr>], ())"
  by (simp add: run_eval predicate_below_30_def reference_graph_def neighbors_def)

lemma find_from_B_shortest_cycle:
  "find_paths reference_graph ''B'' predicate_shortest_cycle POSITIVE_INFINITY =
     Some ([\<lparr>path = [''B'', ''C'', ''D'', ''C'', ''E'', ''B''], latency = 25\<rparr>,
            \<lparr>path = [''B'', ''C'', ''D'', ''E'', ''B''], latency = 21\<rparr>,
            \<lparr>path = [''B'', ''C'', ''E'', ''B''], latency = 9\<rparr>], Finite 9)"
  by (simp add: run_eval predicate_shortest_cycle_def reference_graph_def neighbors_def)

section \<open>Doubles\<close>

declare bit_length.simps [simp del]

declare getLatency_js_loop.simps [simp del]

lemma to_double_pos: "to_double 9007199254740992 = Fin 9007199254740992"
  by (simp add: to_double_def bit_length.simps Let_def)

lemma to_double_neg: "to_double (- 9007199254740992) = Fin (- 9007199254740992)"
  by (simp add: to_double_def bit_length.simps Let_def)

lemma to_double_ties_to_even: "to_double 9007199254740995 = Fin 9007199254740996"
  by (simp add: to_double_def bit_length.simps Let_def)

lemma to_double_exact:
  assumes "\<bar>n\<bar> \<le> 2 ^ 53"
  shows "to_double n = Fin n"
proof (cases "\<bar>n\<bar> < 9007199254740992")
  case True
  then have "nat \<bar>n\<bar> < 2 ^ 53" by simp
  then show ?thesis by (simp only: to_double_def Let_def if_True)
next
  case False
  moreover from assms have "\<bar>n\<bar> \<le> 9007199254740992" by simp
  ultimately have "n = 9007199254740992 \<or> n = - 9007199254740992" by linarith
  then show ?thesis
    using to_double_pos to_double_neg by blast
qed

lemma js_add_exact:
  "\<bar>a + b\<bar> \<le> 2 ^ 53 \<Longrightarrow> js_add (Fin a) (Fin b) = Fin (a + b)"
  by (simp add: to_double_exact)

lemma double_sum_from_safe:
  "safe_from n graph p \<Longrightarrow> double_sum_from (Fin n) graph p = Fin (n + path_weight graph p)"
proof (induction n graph p rule: safe_from.induct)
  case (1 n graph a b p)
  then show ?case by (simp add: to_double_exact add.assoc)
qed simp_all

lemma double_sum_safe:
  "safe_path graph p \<Longrightarrow> double_sum graph p = Fin (path_weight graph p)"
  by (simp add: safe_path_def double_sum_def double_sum_from_safe)

lemma double_sum_from_snoc:
  "double_sum_from acc graph (p @ [k]) =
     (if p = [] then acc
      else js_add (double_sum_from acc graph p) (Fin (weight_of graph (last p) k)))"
  by (induction acc graph p rule: double_sum_from.induct) auto

section \<open>getLatency on every path, pair by pair\<close>

lemma read_weight:
  "edge_weight graph a b = Some w \<Longrightarrow> read_property (parent_of graph a) b = Weight w"
  by (auto simp: edge_weight_def neighbors_def parent_of_def read_property_def
      split: option.splits)

lemma read_plain_gap:
  "edge_weight graph a b = None \<Longrightarrow> plain_gap graph a b \<Longrightarrow>
   read_property (parent_of graph a) b = Absent"
  by (auto simp: edge_weight_def neighbors_def parent_of_def read_property_def plain_gap_def
      split: option.splits)

lemma neighbors_entries_of:
  "neighbors graph k = entries_of (parent_of graph k)"
  by (simp add: neighbors_def parent_of_def split: option.splits)

lemma short_double_sum:
  "length p \<le> 1 \<Longrightarrow> double_sum_from acc graph p = acc"
  by (cases "(acc, graph, p)" rule: double_sum_from.cases) auto

lemma short_first_gap:
  "length p \<le> 1 \<Longrightarrow> first_gap graph p = None"
  by (cases "(graph, p)" rule: first_gap.cases) auto

lemma getLatency_js_loop_valid:
  "1 \<le> i \<Longrightarrow> valid_path graph (drop (i - 1) p) \<Longrightarrow>
   getLatency_js_loop graph p i (Number_acc acc) =
     Returns (number_value (double_sum_from acc graph (drop (i - 1) p)))"
proof (induction graph p i "Number_acc acc" arbitrary: acc rule: getLatency_js_loop.induct)
  case (1 graph pth i)
  show ?case
  proof (cases "i < length pth")
    case False
    then have "length (drop (i - 1) pth) \<le> 1" by simp
    then have "double_sum_from acc graph (drop (i - 1) pth) = acc"
      by (rule short_double_sum)
    with False show ?thesis by (subst getLatency_js_loop.simps) simp
  next
    case True
    note dp = drop_pair[OF "1.prems"(1) True]
    have di: "drop i pth = pth ! i # drop (i + 1) pth"
      using True Cons_nth_drop_Suc[of i pth] by simp
    from "1.prems"(2) dp obtain w where
      w: "edge_weight graph (pth ! (i - 1)) (pth ! i) = Some w" and
      v: "valid_path graph (drop i pth)"
      by (auto simp: di)
    have rd: "read_property (parent_of graph (pth ! (i - 1))) (pth ! i) = Weight w"
      using w by (rule read_weight)
    have "getLatency_js_loop graph pth (i + 1) (Number_acc (js_add acc (Fin w))) =
        Returns (number_value (double_sum_from (js_add acc (Fin w)) graph (drop i pth)))"
      using "1.hyps"(1)[OF True refl refl refl rd, of "js_add acc (Fin w)"] v by simp
    then show ?thesis
      using True rd w dp di
      by (subst getLatency_js_loop.simps) (simp add: weight_of_def)
  qed
qed

lemma getLatency_js_loop_gap:
  "1 \<le> i \<Longrightarrow> first_gap graph (drop (i - 1) p) = Some (a, b) \<Longrightarrow> plain_gap graph a b \<Longrightarrow>
   getLatency_js_loop graph p i result = Returns (Str ''NO SUCH TRACE'')"
proof (induction graph p i result rule: getLatency_js_loop.induct)
  case (1 graph pth i result)
  have lt: "i < length pth"
  proof (rule ccontr)
    assume "\<not> i < length pth"
    then have "length (drop (i - 1) pth) \<le> 1" by simp
    then have "first_gap graph (drop (i - 1) pth) = None" by (rule short_first_gap)
    with "1.prems"(2) show False by simp
  qed
  note dp = drop_pair[OF "1.prems"(1) lt]
  have di: "drop i pth = pth ! i # drop (i + 1) pth"
    using lt Cons_nth_drop_Suc[of i pth] by simp
  show ?case
  proof (cases "edge_weight graph (pth ! (i - 1)) (pth ! i)")
    case None
    with "1.prems"(2) dp have "a = pth ! (i - 1)" "b = pth ! i" by auto
    with None "1.prems"(3)
    have "read_property (parent_of graph (pth ! (i - 1))) (pth ! i) = Absent"
      by (simp add: read_plain_gap)
    then show ?thesis using lt by (subst getLatency_js_loop.simps) simp
  next
    case (Some w)
    then have rd: "read_property (parent_of graph (pth ! (i - 1))) (pth ! i) = Weight w"
      by (rule read_weight)
    from Some "1.prems"(2) dp have fg: "first_gap graph (drop i pth) = Some (a, b)"
      by (simp add: di)
    have "getLatency_js_loop graph pth (i + 1) (accumulate result (Digits (Fin w))) =
        Returns (Str ''NO SUCH TRACE'')"
      using "1.IH"(1)[OF lt refl refl refl rd] fg "1.prems"(3) by simp
    then show ?thesis using lt rd by (subst getLatency_js_loop.simps) simp
  qed
qed

lemma getLatency_js_valid:
  "valid_path graph p \<Longrightarrow> getLatency_js graph p = Returns (number_value (double_sum graph p))"
  by (simp add: getLatency_js_def double_sum_def getLatency_js_loop_valid)

lemma getLatency_js_gap:
  "first_gap graph p = Some (a, b) \<Longrightarrow> plain_gap graph a b \<Longrightarrow>
   getLatency_js graph p = Returns (Str ''NO SUCH TRACE'')"
  by (simp add: getLatency_js_def getLatency_js_loop_gap)

lemma first_gap_None:
  "first_gap graph p = None \<longleftrightarrow> valid_path graph p"
  by (induction graph p rule: first_gap.induct) auto



lemma to_double_above: "to_double 9007199254740993 = Fin 9007199254740992"
  by (simp add: to_double_def bit_length.simps Let_def)

section \<open>The results of find with a predicate that only reads\<close>

lemma recurse_w_loop_Nil:
  "recurse_w_loop graph [] startKey startPath startLatency results predicate s = Some (results, s)"
  by (subst recurse_w_loop.simps) simp

lemma recurse_w_loop_Cons:
  "recurse_w_loop graph ((endKey, meanLatency) # entries') startKey startPath startLatency results
     predicate s =
   (let lat = js_add startLatency (Fin meanLatency);
        pth = startPath @ [endKey];
        result = \<lparr>cpath = pth, clatency = lat\<rparr>;
        (status, s', pth', result') = predicate s result startKey endKey
    in if status = STOP then
         recurse_w_loop graph entries' startKey startPath startLatency results predicate s'
       else
         (let results' = (if status = INCLUDE then results @ [result'] else results)
          in Option.bind
               (recurse_w_loop graph (neighbors graph endKey) endKey pth' lat results'
                  predicate s')
               (\<lambda>(results'', s'').
                  recurse_w_loop graph entries' startKey startPath startLatency results''
                    predicate s'')))"
  by (subst recurse_w_loop.simps) simp

lemmas run_w_eval = find_w_def recurse_w_loop_Nil recurse_w_loop_Cons reading_def
  STOP_def CONTINUE_def INCLUDE_def to_double_exact to_double_above

lemma recurse_w_loop_sound:
  assumes "recurse_w_loop graph entries startKey startPath startLatency results pw s = Some out"
    and "pw = reading predicate"
    and "wf_graph graph"
    and "set entries \<subseteq> set (neighbors graph startKey)"
    and "sound_candidate graph start \<lparr>cpath = startPath, clatency = startLatency\<rparr>"
    and "last startPath = startKey"
    and "\<forall>r \<in> set results. sound_candidate graph start r"
  shows "\<forall>r \<in> set (fst out). sound_candidate graph start r"
  using assms
proof (induction graph entries startKey startPath startLatency results pw s out
    rule: recurse_w_loop.raw_induct[rotated 1, consumes 1])
  case (1 loop graph entries startKey startPath startLatency results pw s out)
  from "1.prems" have pd: "pw = reading predicate"
    and wf: "wf_graph graph"
    and sub0: "set entries \<subseteq> set (neighbors graph startKey)"
    and snd0: "sound_candidate graph start \<lparr>cpath = startPath, clatency = startLatency\<rparr>"
    and lst0: "last startPath = startKey"
    and res0: "\<forall>r \<in> set results. sound_candidate graph start r"
    by blast+
  show ?case
  proof (cases entries)
    case Nil
    with res0 "1.hyps" show ?thesis by auto
  next
    case (Cons e entries')
    obtain endKey w where e: "e = (endKey, w)" by (cases e)
    define pth where "pth = startPath @ [endKey]"
    define lat where "lat = js_add startLatency (Fin w)"
    define result where "result = \<lparr>cpath = pth, clatency = lat\<rparr>"
    obtain status s1 where pr: "predicate s result startKey endKey = (status, s1)"
      by (cases "predicate s result startKey endKey")
    then have pw: "pw s result startKey endKey = (status, s1, pth, result)"
      by (simp add: pd reading_def result_def)
    have edge: "edge_weight graph startKey endKey = Some w"
      using wf sub0 Cons e by (auto intro: entry_edge_weight)
    have sub: "set entries' \<subseteq> set (neighbors graph startKey)"
      using sub0 Cons by auto
    have snd: "sound_candidate graph start result"
      using snd0 lst0 edge
      by (simp add: sound_candidate_def result_def pth_def lat_def valid_path_snoc
          double_sum_def double_sum_from_snoc weight_of_def)
    have lst: "last pth = endKey" by (simp add: pth_def)
    show ?thesis
    proof (cases "status = STOP")
      case True
      then have "loop graph entries' startKey startPath startLatency results pw s1 = Some out"
        using "1.hyps" Cons e pw by (simp add: Let_def result_def pth_def lat_def)
      from "1.IH"[OF this pd wf sub snd0 lst0 res0] show ?thesis .
    next
      case False
      define results1 where "results1 = (if status = INCLUDE then results @ [result] else results)"
      from False obtain mid where
        m1: "loop graph (neighbors graph endKey) endKey pth lat results1 pw s1 = Some mid" and
        m2: "loop graph entries' startKey startPath startLatency (fst mid) pw (snd mid) = Some out"
        using "1.hyps" Cons e pw
        by (auto simp: Let_def result_def pth_def lat_def results1_def bind_eq_Some_conv
            split: if_splits)
      have r1: "\<forall>r \<in> set results1. sound_candidate graph start r"
        using res0 snd by (simp add: results1_def)
      have "\<forall>r \<in> set (fst mid). sound_candidate graph start r"
        using "1.IH"[OF m1 pd wf subset_refl _ lst r1] snd
        by (simp add: result_def)
      from "1.IH"[OF m2 pd wf sub snd0 lst0 this] show ?thesis .
    qed
  qed
qed

lemmas js_eval = getLatency_js_def getLatency_js_loop.simps parent_of_def read_property_def
  object_prototype_names_def to_double_exact to_double_above

section \<open>The two models of getLatency agree where the first one applies\<close>

lemma getLatency_js_agrees:
  assumes "valid_path graph p \<and> safe_path graph p \<or>
      (\<exists>a b. first_gap graph p = Some (a, b) \<and> plain_gap graph a b)"
    and "getLatency graph p = Inr v"
  shows "getLatency_js graph p = Returns v"
  using assms(1)
proof
  assume "valid_path graph p \<and> safe_path graph p"
  then show ?thesis
    using assms(2) by (simp add: getLatency_eq getLatency_js_valid double_sum_safe)
next
  assume "\<exists>a b. first_gap graph p = Some (a, b) \<and> plain_gap graph a b"
  then obtain a b where g: "first_gap graph p = Some (a, b)" "plain_gap graph a b"
    by blast
  then have "\<not> valid_path graph p"
    using first_gap_None[of graph p] by simp
  then show ?thesis
    using assms(2) g by (simp add: getLatency_eq getLatency_js_gap)
qed

section \<open>The claims\<close>

subsection \<open>C1\<close>

text \<open>
  Claim C1, as the code has it. For every graph (an object has each key once), start
  node and predicate that only reads, every result of \<open>find\<close> has a path that begins
  at the start node and whose every consecutive pair is an edge of the graph; its
  latency is the sum of the weights of those edges as the doubles add them from the
  left, which is what \<open>getLatency_js\<close> returns for the path, and it is the sum of the
  integers when the sums stay within \<open>2\<^sup>5\<^sup>3\<close>. A predicate that writes to the result
  it is handed, and weights that add up beyond \<open>2\<^sup>5\<^sup>3\<close>, give results whose
  latency is not the sum.
\<close>

theorem find_results_are_paths:
  assumes "wf_graph graph"
    and "find_w graph start (reading predicate) s = Some (results, s')"
    and "r \<in> set results"
  shows "cpath r \<noteq> [] \<and> hd (cpath r) = start \<and> valid_path graph (cpath r) \<and>
         clatency r = double_sum graph (cpath r) \<and>
         getLatency_js graph (cpath r) = Returns (number_value (clatency r)) \<and>
         (safe_path graph (cpath r) \<longrightarrow> clatency r = Fin (path_weight graph (cpath r)))"
proof -
  have init: "sound_candidate graph start \<lparr>cpath = [start], clatency = Fin 0\<rparr>"
    by (simp add: sound_candidate_def double_sum_def)
  have run: "recurse_w_loop graph (neighbors graph start) start [start] (Fin 0) []
      (reading predicate) s = Some (results, s')"
    using assms(2) by (simp add: find_w_def)
  have "\<forall>r \<in> set (fst (results, s')). sound_candidate graph start r"
    by (rule recurse_w_loop_sound[OF run refl assms(1) subset_refl init]) simp_all
  with assms(3) have "sound_candidate graph start r" by simp
  then show ?thesis
    by (auto simp: sound_candidate_def getLatency_js_valid double_sum_safe)
qed

theorem find_results_are_paths_witness:
  "wf_graph reference_graph \<and>
   find_w reference_graph ''A'' (reading reader_exactly_4_hops) () =
     Some ([\<lparr>cpath = [''A'', ''B'', ''C'', ''D'', ''C''], clatency = Fin 25\<rparr>,
            \<lparr>cpath = [''A'', ''D'', ''C'', ''D'', ''C''], clatency = Fin 29\<rparr>,
            \<lparr>cpath = [''A'', ''D'', ''E'', ''B'', ''C''], clatency = Fin 18\<rparr>], ()) \<and>
   valid_path reference_graph [''A'', ''D'', ''E'', ''B'', ''C''] \<and>
   safe_path reference_graph [''A'', ''D'', ''E'', ''B'', ''C''] \<and>
   path_weight reference_graph [''A'', ''D'', ''E'', ''B'', ''C''] = 18 \<and>
   getLatency_js reference_graph [''A'', ''D'', ''E'', ''B'', ''C''] = Returns (Num 18)"
proof -
  have wf: "wf_graph reference_graph"
    by (simp add: wf_graph_def reference_graph_def)
  have run: "find_w reference_graph ''A'' (reading reader_exactly_4_hops) () =
     Some ([\<lparr>cpath = [''A'', ''B'', ''C'', ''D'', ''C''], clatency = Fin 25\<rparr>,
            \<lparr>cpath = [''A'', ''D'', ''C'', ''D'', ''C''], clatency = Fin 29\<rparr>,
            \<lparr>cpath = [''A'', ''D'', ''E'', ''B'', ''C''], clatency = Fin 18\<rparr>], ())"
    by (simp add: run_w_eval reader_exactly_4_hops_def reference_graph_def neighbors_def)
  have safe: "safe_path reference_graph [''A'', ''D'', ''E'', ''B'', ''C'']"
    by (simp add: safe_path_def graph_eval)
  from find_results_are_paths[OF wf run,
      of "\<lparr>cpath = [''A'', ''D'', ''E'', ''B'', ''C''], clatency = Fin 18\<rparr>"] wf run safe
  show ?thesis by simp
qed

theorem find_results_counterexample:
  "find_w reference_graph ''A'' writer_zero_latency () =
     Some ([\<lparr>cpath = [''A'', ''B''], clatency = Fin 0\<rparr>,
            \<lparr>cpath = [''A'', ''D''], clatency = Fin 0\<rparr>,
            \<lparr>cpath = [''A'', ''E''], clatency = Fin 0\<rparr>], ()) \<and>
   path_weight reference_graph [''A'', ''B''] = 5 \<and>
   getLatency_js reference_graph [''A'', ''B''] = Returns (Num 5) \<and>
   find_w big_graph ''A'' (reading reader_include_all) () =
     Some ([\<lparr>cpath = [''A'', ''B''], clatency = Fin 9007199254740992\<rparr>,
            \<lparr>cpath = [''A'', ''B'', ''C''], clatency = Fin 9007199254740992\<rparr>], ()) \<and>
   path_weight big_graph [''A'', ''B'', ''C''] = 9007199254740993"
  by (simp add: run_w_eval writer_zero_latency_def reader_include_all_def reference_graph_def
      big_graph_def neighbors_def edge_weight_def weight_of_def js_eval Let_def)

subsection \<open>C2\<close>



subsection \<open>C3\<close>

text \<open>
  Claim C3, as the code has it. For a path all of whose consecutive pairs are edges
  of the graph, \<open>getLatency_js\<close> returns the sum of the weights of those edges as
  the doubles add them from the left: the sum of the integers when the sums stay within
  \<open>2\<^sup>5\<^sup>3\<close>. A path of one node sums to 0, and on the reference graph A-B-C sums
  to 9, A-D to 5, A-D-C to 13 and A-E-B-C-D to 22.
\<close>

theorem getLatency_valid_path:
  "(valid_path graph p \<longrightarrow>
      getLatency_js graph p = Returns (number_value (double_sum graph p))) \<and>
   (valid_path graph p \<and> safe_path graph p \<longrightarrow>
      getLatency_js graph p = Returns (Num (path_weight graph p))) \<and>
   getLatency_js graph [a] = Returns (Num 0) \<and>
   getLatency_js reference_graph [''A'', ''B'', ''C''] = Returns (Num 9) \<and>
   getLatency_js reference_graph [''A'', ''D''] = Returns (Num 5) \<and>
   getLatency_js reference_graph [''A'', ''D'', ''C''] = Returns (Num 13) \<and>
   getLatency_js reference_graph [''A'', ''E'', ''B'', ''C'', ''D''] = Returns (Num 22)"
proof -
  have "getLatency_js graph [a] = Returns (Num 0)"
    by (simp add: getLatency_js_valid double_sum_def)
  moreover have "getLatency_js reference_graph [''A'', ''B'', ''C''] = Returns (Num 9)"
    by (simp add: js_eval reference_graph_def)
  moreover have "getLatency_js reference_graph [''A'', ''D''] = Returns (Num 5)"
    by (simp add: js_eval reference_graph_def)
  moreover have "getLatency_js reference_graph [''A'', ''D'', ''C''] = Returns (Num 13)"
    by (simp add: js_eval reference_graph_def)
  moreover have
    "getLatency_js reference_graph [''A'', ''E'', ''B'', ''C'', ''D''] = Returns (Num 22)"
    by (simp add: js_eval reference_graph_def)
  ultimately show ?thesis
    by (simp add: getLatency_js_valid double_sum_safe)
qed

theorem getLatency_valid_path_witness:
  "valid_path reference_graph [''E'', ''B'', ''C'', ''E''] \<and>
   safe_path reference_graph [''E'', ''B'', ''C'', ''E''] \<and>
   getLatency_js reference_graph [''E'', ''B'', ''C'', ''E''] = Returns (Num (3 + 4 + 2))"
proof -
  have v: "valid_path reference_graph [''E'', ''B'', ''C'', ''E'']"
    by (simp add: graph_eval)
  have s: "safe_path reference_graph [''E'', ''B'', ''C'', ''E'']"
    by (simp add: safe_path_def graph_eval)
  have w: "path_weight reference_graph [''E'', ''B'', ''C'', ''E''] = 3 + 4 + 2"
    by (simp add: graph_eval)
  from getLatency_valid_path[of reference_graph "[''E'', ''B'', ''C'', ''E'']"] v s
  have r: "getLatency_js reference_graph [''E'', ''B'', ''C'', ''E''] =
      Returns (Num (path_weight reference_graph [''E'', ''B'', ''C'', ''E'']))"
    by blast
  show ?thesis
    unfolding r w using v s by simp
qed

theorem getLatency_valid_path_counterexample:
  "valid_path big_graph [''A'', ''B'', ''C''] \<and>
   path_weight big_graph [''A'', ''B'', ''C''] = 9007199254740993 \<and>
   getLatency_js big_graph [''A'', ''B'', ''C''] = Returns (Num 9007199254740992)"
  by (simp add: js_eval big_graph_def neighbors_def edge_weight_def weight_of_def)

subsection \<open>C4\<close>




subsection \<open>C5\<close>

text \<open>
  Claim C5, as the code has it. \<open>getLatency\<close> of the empty path does not fail: the
  loop is not entered and the sum 0 is returned.
\<close>

theorem getLatency_empty_path:
  "getLatency graph [] = Inr (Num 0)"
  by (simp add: getLatency_eq)

theorem getLatency_empty_path_counterexample:
  "getLatency reference_graph [] = Inr (Num 0) \<and>
   getLatency reference_graph [] \<noteq> Inl InvalidPathError"
  by (simp add: getLatency_def getLatency_loop.simps)

subsection \<open>C6\<close>

text \<open>
  Claim C6, as the code has it. \<open>parse\<close> checks nothing and does not fail: for every
  text it returns a graph, and every record, decodable or not, is stored as the edge
  from the key of its first character to the key of its second (\<^verbatim>\<open>undefined\<close> for a
  character the record does not have) with the number the rest of the record
  converts to; of two records with the same keys the later one gives the weight.
\<close>

theorem parse_stores_every_record:
  assumes "split_comma contents = pre @ trace # post"
    and "\<forall>t \<in> set post. (char_key t 0, char_key t 1) \<noteq> (char_key trace 0, char_key trace 1)"
  shows "\<exists>graph. parse contents = Inr graph \<and>
           edge_weight graph (char_key trace 0) (char_key trace 1) = Some (to_number (drop 2 trace))"
proof -
  have "edge_weight (foldl parse_trace [] (pre @ trace # post)) (char_key trace 0)
      (char_key trace 1) = Some (to_number (drop 2 trace))"
    using assms(2) by (rule edge_weight_foldl_last)
  then show ?thesis
    unfolding parse_def assms(1) by blast
qed

theorem parse_stores_every_record_witness:
  "split_comma ''AB5,Ax,AB7'' = [''AB5''] @ ''Ax'' # [''AB7''] \<and> \<not> decodable ''Ax'' \<and>
   (\<exists>graph. parse ''AB5,Ax,AB7'' = Inr graph \<and> edge_weight graph ''A'' ''x'' = Some (Integer 0))"
proof -
  have s: "split_comma ''AB5,Ax,AB7'' = [''AB5''] @ ''Ax'' # [''AB7'']"
    by simp
  have d: "\<forall>t \<in> set [''AB7'']. (char_key t 0, char_key t 1) \<noteq> (char_key ''Ax'' 0, char_key ''Ax'' 1)"
    by (simp add: char_key_def)
  have n: "\<not> decodable ''Ax''"
    by (simp add: decodable_def)
  from parse_stores_every_record[OF s d] s n show ?thesis
    by (simp add: char_key_def to_number_def trim_def)
qed

theorem parse_malformed_counterexample:
  "''A'' \<in> set (split_comma ''AB5,A'') \<and> \<not> decodable ''A'' \<and>
   parse ''AB5,A'' = Inr [(''A'', [(''B'', Integer 5), (''undefined'', Integer 0)])] \<and>
   parse ''AB5,A'' \<noteq> Inl MalformedInputError"
  by (simp add: parse_eval decodable_def)

subsection \<open>C7\<close>




subsection \<open>C8\<close>

text \<open>
  Claim C8. On the reference graph, \<open>find\<close> from C with the predicate that stops a
  candidate of more than 4 nodes, includes a candidate that ends at C and continues
  otherwise returns the two results C-D-C of latency 16 and C-E-B-C of latency 9, in
  that order.
\<close>

theorem find_from_C_max_3_hops:
  "find_paths reference_graph ''C'' predicate_max_3_hops () =
     Some ([\<lparr>path = [''C'', ''D'', ''C''], latency = 16\<rparr>,
            \<lparr>path = [''C'', ''E'', ''B'', ''C''], latency = 9\<rparr>], ())"
  by (simp add: run_eval predicate_max_3_hops_def reference_graph_def neighbors_def)

subsection \<open>C9\<close>

text \<open>
  Claim C9. On the reference graph, \<open>find\<close> from A with the predicate that stops a
  candidate whose latency is at least the running minimum (infinite at first) and, on
  a candidate that ends at C, sets the minimum to its latency and includes it, returns
  the single result A-B-C of latency 9 and leaves the minimum at 9; A-B-C is a path of
  the graph of weight 9, and no path of the graph from A to C weighs less.
\<close>

theorem shortest_trace_from_A_to_C:
  "find_paths reference_graph ''A'' predicate_shortest POSITIVE_INFINITY =
     Some ([\<lparr>path = [''A'', ''B'', ''C''], latency = 9\<rparr>], Finite 9) \<and>
   getLatency reference_graph [''A'', ''B'', ''C''] = Inr (Num 9) \<and>
   (p \<noteq> [] \<and> hd p = ''A'' \<and> last p = ''C'' \<and> valid_path reference_graph p \<longrightarrow>
      9 \<le> path_weight reference_graph p)"
proof -
  have "find_paths reference_graph ''A'' predicate_shortest POSITIVE_INFINITY =
     Some ([\<lparr>path = [''A'', ''B'', ''C''], latency = 9\<rparr>], Finite 9)"
    by (simp add: run_eval predicate_shortest_def reference_graph_def neighbors_def)
  moreover have "getLatency reference_graph [''A'', ''B'', ''C''] = Inr (Num 9)"
    by (simp add: getLatency_eq graph_eval)
  moreover have "9 \<le> path_weight reference_graph p"
    if "p \<noteq> []" "hd p = ''A''" "last p = ''C''" "valid_path reference_graph p"
    using potential_path[OF that(4,1)] that(2,3) by (simp add: dist_A_def)
  ultimately show ?thesis by blast
qed

theorem shortest_trace_from_A_to_C_witness:
  "valid_path reference_graph [''A'', ''D'', ''C''] \<and>
   path_weight reference_graph [''A'', ''D'', ''C''] = 13 \<and>
   9 \<le> path_weight reference_graph [''A'', ''D'', ''C'']"
proof -
  have v: "valid_path reference_graph [''A'', ''D'', ''C'']"
    by (simp add: graph_eval)
  have w: "path_weight reference_graph [''A'', ''D'', ''C''] = 13"
    by (simp add: graph_eval)
  from shortest_trace_from_A_to_C[of "[''A'', ''D'', ''C'']"] v w show ?thesis
    by simp
qed

subsection \<open>C10\<close>

text \<open>
  Claim C10. A value returned by the predicate that is neither \<open>STOP\<close> nor \<open>INCLUDE\<close>
  has the effect of \<open>CONTINUE\<close>: replacing every such value by \<open>CONTINUE\<close> changes
  neither what \<open>find\<close> returns nor whether it returns.
\<close>

theorem other_values_continue:
  "find_paths graph startKey predicate s = find_paths graph startKey (as_continue predicate) s \<and>
   recurse_loop graph entries cur startPath startLatency results predicate s =
     recurse_loop graph entries cur startPath startLatency results (as_continue predicate) s"
proof -
  have "recurse_loop g e k p l rs predicate t = recurse_loop g e k p l rs (as_continue predicate) t"
    for g e k p l rs t
  proof (cases "recurse_loop g e k p l rs predicate t")
    case (Some out)
    then show ?thesis by (simp add: as_continue_le)
  next
    case None
    show ?thesis
    proof (cases "recurse_loop g e k p l rs (as_continue predicate) t")
      case (Some out)
      from as_continue_ge[OF this refl] None show ?thesis by simp
    qed (simp add: None)
  qed
  then show ?thesis by (simp add: find_paths_def recurse_def)
qed

theorem other_values_continue_witness:
  "find_paths reference_graph ''C'' predicate_no_return () =
     Some ([\<lparr>path = [''C'', ''D'', ''C''], latency = 16\<rparr>,
            \<lparr>path = [''C'', ''E'', ''B'', ''C''], latency = 9\<rparr>], ())"
proof -
  have "find_paths reference_graph ''C'' (as_continue predicate_no_return) () =
     Some ([\<lparr>path = [''C'', ''D'', ''C''], latency = 16\<rparr>,
            \<lparr>path = [''C'', ''E'', ''B'', ''C''], latency = 9\<rparr>], ())"
    by (simp add: run_eval as_continue_def predicate_no_return_def reference_graph_def
        neighbors_def)
  then show ?thesis
    using other_values_continue[of reference_graph "''C''" predicate_no_return "()"] by simp
qed

end
